theory Spec2Isabelle
  imports Main "HOL-Library.Word" "HOL-Library.AList"
begin

section \<open>The circuit breaker of breaker.go\<close>

text \<open>
  The Go package keeps one \<^verbatim>\<open>Breaker\<close> whose field \<^verbatim>\<open>R\<close> has type
  \<^verbatim>\<open>map[string]*RPC\<close>: the registry holds pointers, and the functions of the
  package read and write the \<^verbatim>\<open>RPC\<close> objects through them. Whether a write
  reaches the registry depends on which pointer it goes through, so the objects live in
  an explicit store: an address is an index into the list of all \<^verbatim>\<open>RPC\<close>
  objects allocated so far, and \<^verbatim>\<open>&RPC{...}\<close> appends a new object.

  Go's \<^verbatim>\<open>int\<close> is 32 or 64 bits wide, as the platform has it: its width is the
  type parameter \<open>'w\<close> of everything below, so that what is proved holds on both.
  \<^verbatim>\<open>int64\<close> is 64 bits everywhere. Both are two's complement words whose
  \<^verbatim>\<open>++\<close> and \<^verbatim>\<open>+\<close> wrap around, and whose comparisons are signed.
\<close>

subsection \<open>Data\<close>

type_synonym 'w go_int = "'w word"
type_synonym int64 = "64 word"

record (overloaded) ('w::len) Config =
  FailThreshold :: "'w go_int"
  SuccThreshold :: "'w go_int"
  OpenTimeout :: int64

datatype BreakerStatus = CloseStatus | HalfOpenStatus | OpenStatus

record (overloaded) ('w::len) RPC =
  Status :: BreakerStatus
  FailCount :: "'w go_int"
  SuccCount :: "'w go_int"
  OpenTime :: int64

type_synonym addr = nat

text \<open>
  The breaker: its configuration, the registry \<^verbatim>\<open>R\<close> (keys to addresses, an
  association list read with \<^const>\<open>map_of\<close>), and the store of \<^verbatim>\<open>RPC\<close>
  objects the addresses point into. The mutex is not modelled: \<^verbatim>\<open>setFail\<close> and
  \<^verbatim>\<open>setSucc\<close> hold it from entry to return, and each call is one step here; so
  is each call of \<^verbatim>\<open>getStatus\<close> and each tick of the goroutine, which read the
  registry without it.
\<close>

record (overloaded) ('w::len) Breaker =
  Config :: "'w Config"
  R :: "(string \<times> addr) list"
  heap :: "'w RPC list"

subsection \<open>The store\<close>

text \<open>\<^verbatim>\<open>&RPC{...}\<close>: allocate a new object, return its address.\<close>

definition new_RPC :: "('w::len) RPC \<Rightarrow> 'w Breaker \<Rightarrow> addr \<times> 'w Breaker" where
  "new_RPC v b = (length (heap b), b\<lparr>heap := heap b @ [v]\<rparr>)"

text \<open>\<^verbatim>\<open>*p\<close> read and written.\<close>

definition deref :: "('w::len) Breaker \<Rightarrow> addr \<Rightarrow> 'w RPC" where
  "deref b p = heap b ! p"

definition assign :: "addr \<Rightarrow> ('w::len) RPC \<Rightarrow> 'w Breaker \<Rightarrow> 'w Breaker" where
  "assign p v b = b\<lparr>heap := (heap b)[p := v]\<rparr>"

text \<open>\<^verbatim>\<open>breaker.R[r] = p\<close>.\<close>

definition set_R :: "string \<Rightarrow> addr \<Rightarrow> ('w::len) Breaker \<Rightarrow> 'w Breaker" where
  "set_R r p b = b\<lparr>R := AList.update r p (R b)\<rparr>"

text \<open>The zero value \<^verbatim>\<open>RPC{}\<close>: \<^verbatim>\<open>CloseStatus\<close> is \<^verbatim>\<open>iota\<close> 0.\<close>

definition zero_RPC :: "('w::len) RPC" where
  "zero_RPC = \<lparr>Status = CloseStatus, FailCount = 0, SuccCount = 0, OpenTime = 0\<rparr>"

text \<open>
  The record of a resource: the object its registry entry points to, if it has one.
\<close>

definition rpc_of :: "('w::len) Breaker \<Rightarrow> string \<Rightarrow> 'w RPC option" where
  "rpc_of b r = map_option (deref b) (map_of (R b) r)"

text \<open>
  Every pointer in the registry is the address of an allocated object. Go guarantees
  this of every non-nil pointer, and the code never stores nil in the registry; a
  registry with a nil entry, on which the methods would panic, is outside the model.
\<close>

definition allocated :: "('w::len) Breaker \<Rightarrow> bool" where
  "allocated b = (\<forall>r p. map_of (R b) r = Some p \<longrightarrow> p < length (heap b))"

subsection \<open>The operations\<close>

text \<open>\<^verbatim>\<open>InitBreaker\<close>: an empty registry. The goroutine it starts is \<open>autoHalfOpen\<close>, below.\<close>

definition InitBreaker :: "('w::len) Config \<Rightarrow> 'w Breaker" where
  "InitBreaker config = \<lparr>Config = config, R = [], heap = []\<rparr>"

definition isHalfOpen :: "('w::len) RPC \<Rightarrow> bool" where
  "isHalfOpen rpc = (Status rpc = HalfOpenStatus)"

definition isOpen :: "('w::len) RPC \<Rightarrow> bool" where
  "isOpen rpc = (Status rpc = OpenStatus)"

definition isClose :: "('w::len) RPC \<Rightarrow> bool" where
  "isClose rpc = (Status rpc = CloseStatus)"

text \<open>
  \<^verbatim>\<open>getStatus\<close>, with the state it leaves behind.
\<close>

definition getStatus :: "string \<Rightarrow> ('w::len) Breaker \<Rightarrow> BreakerStatus \<times> 'w Breaker" where
  "getStatus r b =
     (case map_of (R b) r of
        Some v \<Rightarrow> (Status (deref b v), b)
      | None \<Rightarrow> (CloseStatus, b))"

text \<open>
  \<^verbatim>\<open>setOpenStatus(rpc *RPC)\<close>. Go passes the pointer by value. The body is the
  single assignment \<^verbatim>\<open>rpc = &RPC{...}\<close>: it allocates a new Open object and
  binds the parameter \<^verbatim>\<open>rpc\<close> to its address. Nothing is written through the
  pointer that was passed in, the function returns nothing, and the parameter dies with
  the call; what is left is the store with one more object in it. \<open>now\<close> is what
  \<^verbatim>\<open>time.Now().Unix()\<close> returns during the call.
\<close>

definition setOpenStatus :: "addr \<Rightarrow> int64 \<Rightarrow> ('w::len) Breaker \<Rightarrow> 'w Breaker" where
  "setOpenStatus rpc now b =
     (let (rpc, b) =
        new_RPC \<lparr>Status = OpenStatus, FailCount = 0, SuccCount = 0, OpenTime = now\<rparr> b
      in b)"

text \<open>
  \<^verbatim>\<open>setFail\<close>. \<^verbatim>\<open>v.FailCount++\<close> writes through \<open>v\<close>, the pointer read
  from the registry, so it changes the registry's record.
\<close>

definition setFail :: "string \<Rightarrow> int64 \<Rightarrow> ('w::len) Breaker \<Rightarrow> 'w Breaker" where
  "setFail r now b =
     (case map_of (R b) r of
        Some v \<Rightarrow>
          if isHalfOpen (deref b v) then setOpenStatus v now b
          else if isClose (deref b v) then
            (let b = assign v ((deref b v)\<lparr>FailCount := FailCount (deref b v) + 1\<rparr>) b
             in if FailThreshold (Config b) \<le>s FailCount (deref b v)
                then setOpenStatus v now b
                else b)
          else b
      | None \<Rightarrow>
          (let (p, b) = new_RPC zero_RPC b;
               b = set_R r p b
           in if FailThreshold (Config b) = 1
              then setOpenStatus p now b
              else assign p ((deref b p)\<lparr>FailCount := 1\<rparr>) b))"

text \<open>\<^verbatim>\<open>setSucc\<close>.\<close>

definition setSucc :: "string \<Rightarrow> ('w::len) Breaker \<Rightarrow> 'w Breaker" where
  "setSucc r b =
     (case map_of (R b) r of
        Some v \<Rightarrow>
          if isHalfOpen (deref b v) then
            (let b = assign v ((deref b v)\<lparr>SuccCount := SuccCount (deref b v) + 1\<rparr>) b
             in if SuccThreshold (Config b) \<le>s SuccCount (deref b v)
                then (let (p, b) = new_RPC zero_RPC b in set_R r p b)
                else b)
          else b
      | None \<Rightarrow> b)"

text \<open>
  \<^verbatim>\<open>autoHalfOpen\<close> reads the clock once, before its loop: \<open>nowTime\<close> is that
  reading, the same at every tick. One tick ranges over the keys of the registry; for
  each key the body looks at the object the key points to at that moment, and the only
  write of the body is to the entry of that key. The loop itself never ends; what is
  modelled is one pass of it, and a run (below) takes any number of passes.
\<close>

definition halfOpen_RPC :: "('w::len) RPC" where
  "halfOpen_RPC = \<lparr>Status = HalfOpenStatus, FailCount = 0, SuccCount = 0, OpenTime = 0\<rparr>"

definition autoHalfOpen_body :: "int64 \<Rightarrow> string \<Rightarrow> ('w::len) Breaker \<Rightarrow> 'w Breaker" where
  "autoHalfOpen_body nowTime r b =
     (case map_of (R b) r of
        None \<Rightarrow> b
      | Some v \<Rightarrow>
          if Status (deref b v) = OpenStatus \<and>
             nowTime <s OpenTime (deref b v) + OpenTimeout (Config b)
          then (let (p, b) = new_RPC halfOpen_RPC b in set_R r p b)
          else b)"

fun autoHalfOpen_range :: "int64 \<Rightarrow> string list \<Rightarrow> ('w::len) Breaker \<Rightarrow> 'w Breaker" where
  "autoHalfOpen_range nowTime [] b = b"
| "autoHalfOpen_range nowTime (r # rs) b =
     autoHalfOpen_range nowTime rs (autoHalfOpen_body nowTime r b)"

definition autoHalfOpen_tick :: "int64 \<Rightarrow> ('w::len) Breaker \<Rightarrow> 'w Breaker" where
  "autoHalfOpen_tick nowTime b = autoHalfOpen_range nowTime (map fst (R b)) b"

subsection \<open>Runs\<close>

text \<open>
  What can happen to a breaker after \<^verbatim>\<open>InitBreaker\<close>: calls of the three
  methods, each with the clock reading it would see, and ticks of the goroutine, in any
  order. A run applies a finite sequence of them; \<open>nowTime\<close> is the goroutine's one
  clock reading.
\<close>

datatype call = SetFail string int64 | SetSucc string | GetStatus string | Tick

fun step :: "int64 \<Rightarrow> call \<Rightarrow> ('w::len) Breaker \<Rightarrow> 'w Breaker" where
  "step nowTime (SetFail r now) b = setFail r now b"
| "step nowTime (SetSucc r) b = setSucc r b"
| "step nowTime (GetStatus r) b = snd (getStatus r b)"
| "step nowTime Tick b = autoHalfOpen_tick nowTime b"

fun run :: "int64 \<Rightarrow> call list \<Rightarrow> ('w::len) Breaker \<Rightarrow> 'w Breaker" where
  "run nowTime [] b = b"
| "run nowTime (c # cs) b = run nowTime cs (step nowTime c b)"

text \<open>
  The invariant of the runs from \<^verbatim>\<open>InitBreaker\<close>: every registry entry points
  to an allocated object that is Closed, was never opened and counted no success.
\<close>

definition all_closed :: "('w::len) Breaker \<Rightarrow> bool" where
  "all_closed b =
     (\<forall>r p. map_of (R b) r = Some p \<longrightarrow>
        p < length (heap b) \<and> Status (heap b ! p) = CloseStatus \<and>
        SuccCount (heap b ! p) = 0 \<and> OpenTime (heap b ! p) = 0)"

text \<open>
  A bound on the failure counts of the registry's records, read as unsigned numbers.
\<close>

definition failures_at_most :: "nat \<Rightarrow> ('w::len) Breaker \<Rightarrow> bool" where
  "failures_at_most n b =
     (\<forall>r p. map_of (R b) r = Some p \<longrightarrow>
        p < length (heap b) \<and> unat (FailCount (heap b ! p)) \<le> n)"

subsection \<open>Concrete breakers\<close>

text \<open>
  The configuration of the specification's scenario, on a 64-bit platform, and a
  breaker whose registry holds one record, for the resource \<open>svc-a\<close>.
\<close>

definition scenario_config :: "64 Config" where
  "scenario_config = \<lparr>FailThreshold = 3, SuccThreshold = 2, OpenTimeout = 10\<rparr>"

definition one_record :: "('w::len) Config \<Rightarrow> 'w RPC \<Rightarrow> 'w Breaker" where
  "one_record config v = \<lparr>Config = config, R = [(''svc-a'', 0)], heap = [v]\<rparr>"

section \<open>Facts about the store and the operations\<close>

lemmas store_defs = new_RPC_def assign_def set_R_def deref_def setOpenStatus_def
  isHalfOpen_def isClose_def isOpen_def zero_RPC_def halfOpen_RPC_def

lemma rpc_of_one_record: "rpc_of (one_record config v) ''svc-a'' = Some v"
  by (simp add: rpc_of_def one_record_def deref_def)

lemma rpc_of_one_record_other: "r \<noteq> ''svc-a'' \<Longrightarrow> rpc_of (one_record config v) r = None"
  by (simp add: rpc_of_def one_record_def)

lemma allocated_one_record: "allocated (one_record config v)"
  by (simp add: allocated_def one_record_def)

lemma Config_one_record: "Config (one_record config v) = config"
  by (simp add: one_record_def)

lemma rpc_of_Init: "rpc_of (InitBreaker config) r = None"
  by (simp add: rpc_of_def InitBreaker_def)

lemma Config_Init: "Config (InitBreaker config) = config"
  by (simp add: InitBreaker_def)

lemma allocated_Init: "allocated (InitBreaker config)"
  by (simp add: allocated_def InitBreaker_def)

lemma rpc_of_None_iff: "rpc_of b r = None \<longleftrightarrow> r \<notin> fst ` set (R b)"
  by (simp add: rpc_of_def map_of_eq_None_iff)

subsection \<open>The configuration never changes\<close>

lemma Config_setFail: "Config (setFail r now b) = Config b"
  by (simp add: setFail_def store_defs Let_def split: option.splits)

lemma Config_setSucc: "Config (setSucc r b) = Config b"
  by (simp add: setSucc_def store_defs Let_def split: option.splits)

lemma Config_body: "Config (autoHalfOpen_body t r b) = Config b"
  by (simp add: autoHalfOpen_body_def store_defs Let_def split: option.splits)

lemma Config_range: "Config (autoHalfOpen_range t rs b) = Config b"
  by (induction rs arbitrary: b) (simp_all add: Config_body)

subsection \<open>Registry pointers stay allocated\<close>

lemma allocated_setFail: "allocated b \<Longrightarrow> allocated (setFail r now b)"
  by (auto simp add: setFail_def store_defs Let_def allocated_def update_conv' less_Suc_eq
      split: option.splits if_splits)

lemma allocated_setSucc: "allocated b \<Longrightarrow> allocated (setSucc r b)"
  by (auto simp add: setSucc_def store_defs Let_def allocated_def update_conv' less_Suc_eq
      split: option.splits if_splits)

lemma allocated_body: "allocated b \<Longrightarrow> allocated (autoHalfOpen_body t r b)"
  by (auto simp add: autoHalfOpen_body_def store_defs Let_def allocated_def update_conv'
      less_Suc_eq split: option.splits if_splits)

lemma allocated_range: "allocated b \<Longrightarrow> allocated (autoHalfOpen_range t rs b)"
  by (induction rs arbitrary: b) (simp_all add: allocated_body)

subsection \<open>What each operation does to the record of the resource it is called on\<close>

lemma rpc_of_setFail:
  "allocated b \<Longrightarrow> rpc_of (setFail r now b) r =
     Some (case rpc_of b r of
        None \<Rightarrow> if FailThreshold (Config b) = 1 then zero_RPC else zero_RPC\<lparr>FailCount := 1\<rparr>
      | Some v \<Rightarrow> if Status v = CloseStatus then v\<lparr>FailCount := FailCount v + 1\<rparr> else v)"
  by (auto simp add: setFail_def rpc_of_def store_defs Let_def allocated_def update_conv'
      nth_append split: option.splits)

lemma rpc_of_setSucc:
  "allocated b \<Longrightarrow> rpc_of (setSucc r b) r =
     (case rpc_of b r of
        None \<Rightarrow> None
      | Some v \<Rightarrow>
          if Status v = HalfOpenStatus then
            if SuccThreshold (Config b) \<le>s SuccCount v + 1 then Some zero_RPC
            else Some (v\<lparr>SuccCount := SuccCount v + 1\<rparr>)
          else Some v)"
  by (auto simp add: setSucc_def rpc_of_def store_defs Let_def allocated_def update_conv'
      nth_append split: option.splits)

lemma rpc_of_body:
  "allocated b \<Longrightarrow> rpc_of (autoHalfOpen_body t r0 b) r =
     (if r = r0 then
        (case rpc_of b r of
           None \<Rightarrow> None
         | Some v \<Rightarrow>
             if Status v = OpenStatus \<and> t <s OpenTime v + OpenTimeout (Config b)
             then Some halfOpen_RPC else Some v)
      else rpc_of b r)"
  by (cases "map_of (R b) r"; cases "map_of (R b) r0")
    (auto simp add: autoHalfOpen_body_def rpc_of_def store_defs Let_def allocated_def
      update_conv' nth_append)

lemma rpc_of_range:
  "allocated b \<Longrightarrow> rpc_of (autoHalfOpen_range t rs b) r =
     (if r \<in> set rs then
        (case rpc_of b r of
           None \<Rightarrow> None
         | Some v \<Rightarrow>
             if Status v = OpenStatus \<and> t <s OpenTime v + OpenTimeout (Config b)
             then Some halfOpen_RPC else Some v)
      else rpc_of b r)"
proof (induction rs arbitrary: b)
  case Nil
  then show ?case by simp
next
  case (Cons r0 rs)
  show ?case
    using Cons.prems Cons.IH [OF allocated_body [OF Cons.prems], of t r0]
    by (auto simp add: rpc_of_body Config_body halfOpen_RPC_def split: option.splits)
qed

lemma rpc_of_tick:
  "allocated b \<Longrightarrow> rpc_of (autoHalfOpen_tick t b) r =
     (case rpc_of b r of
        None \<Rightarrow> None
      | Some v \<Rightarrow>
          if Status v = OpenStatus \<and> t <s OpenTime v + OpenTimeout (Config b)
          then Some halfOpen_RPC else Some v)"
  using rpc_of_None_iff [of b r]
  by (auto simp add: autoHalfOpen_tick_def rpc_of_range split: option.splits)

subsection \<open>Repeated failures\<close>

lemma fold_setFail_Closed:
  "allocated b \<Longrightarrow> rpc_of b r = Some v \<Longrightarrow> Status v = CloseStatus \<Longrightarrow>
     rpc_of (fold (setFail r) ts b) r = Some (v\<lparr>FailCount := FailCount v + of_nat (length ts)\<rparr>)"
proof (induction ts arbitrary: b v)
  case Nil
  then show ?case by simp
next
  case (Cons t ts)
  have "rpc_of (setFail r t b) r = Some (v\<lparr>FailCount := FailCount v + 1\<rparr>)"
    using Cons.prems by (simp add: rpc_of_setFail)
  from Cons.IH [OF allocated_setFail [OF Cons.prems(1)] this]
  show ?case using Cons.prems(3) by (simp add: ac_simps)
qed

lemma fold_setFail_fresh:
  assumes "allocated b" and "rpc_of b r = None" and "FailThreshold (Config b) \<noteq> 1"
    and "ts \<noteq> []"
  shows "rpc_of (fold (setFail r) ts b) r =
           Some (zero_RPC\<lparr>FailCount := of_nat (length ts)\<rparr>)"
proof (cases ts)
  case Nil
  with assms(4) show ?thesis by simp
next
  case (Cons t ts')
  have "rpc_of (setFail r t b) r = Some (zero_RPC\<lparr>FailCount := 1\<rparr>)"
    using assms by (simp add: rpc_of_setFail)
  from fold_setFail_Closed [OF allocated_setFail [OF assms(1)] this, of ts']
  show ?thesis using Cons by (simp add: zero_RPC_def ac_simps)
qed

lemma funpow_setFail_fresh:
  assumes "allocated b" and "rpc_of b r = None" and "FailThreshold (Config b) \<noteq> 1"
  shows "rpc_of ((setFail r now ^^ Suc n) b) r = Some (zero_RPC\<lparr>FailCount := of_nat (Suc n)\<rparr>)"
proof -
  have "fold (setFail r) (replicate (Suc n) now) b = (setFail r now ^^ Suc n) b"
    by (simp only: fold_replicate)
  with fold_setFail_fresh [OF assms, of "replicate (Suc n) now"]
  show ?thesis by simp
qed

subsection \<open>Repeated successes\<close>

lemma sint_add_of_nat:
  fixes s K :: "'w::len word"
  assumes "sint s + int n \<le> sint K"
  shows "sint (s + of_nat n) = sint s + int n"
proof -
  have lo: "- (2 ^ (LENGTH('w) - 1)) \<le> sint s + int n"
    using sint_ge [of s] by simp
  have hi: "sint s + int n < 2 ^ (LENGTH('w) - 1)"
    using assms sint_lt [of K] by simp
  have "s + of_nat n = word_of_int (sint s + int n)"
    by simp
  then have "sint (s + of_nat n) = signed_take_bit (LENGTH('w) - 1) (sint s + int n)"
    by (simp only: sint_sbintrunc')
  also have "\<dots> = sint s + int n"
    using lo hi by (simp add: signed_take_bit_int_eq_self)
  finally show ?thesis .
qed

lemma funpow_setSucc_facts:
  "allocated b \<Longrightarrow> allocated ((setSucc r ^^ n) b)"
  "Config ((setSucc r ^^ n) b) = Config b"
  by (induction n) (simp_all add: allocated_setSucc Config_setSucc)

lemma funpow_setSucc:
  assumes "allocated b" and "rpc_of b r = Some v" and "Status v = HalfOpenStatus"
    and "SuccCount v <s SuccThreshold (Config b)"
  shows "rpc_of ((setSucc r ^^ n) b) r =
           Some (if sint (SuccCount v) + int n < sint (SuccThreshold (Config b))
                 then v\<lparr>SuccCount := SuccCount v + of_nat n\<rparr> else zero_RPC)"
proof (induction n)
  case 0
  then show ?case using assms by (simp add: word_sless_alt)
next
  case (Suc n)
  let ?K = "SuccThreshold (Config b)"
  show ?case
  proof (cases "sint (SuccCount v) + int n < sint ?K")
    case True
    then have "sint (SuccCount v) + int (Suc n) \<le> sint ?K"
      by simp
    then have eq: "sint (SuccCount v + of_nat (Suc n)) = sint (SuccCount v) + int (Suc n)"
      by (rule sint_add_of_nat)
    have before: "rpc_of ((setSucc r ^^ n) b) r = Some (v\<lparr>SuccCount := SuccCount v + of_nat n\<rparr>)"
      using Suc True by simp
    have "rpc_of ((setSucc r ^^ Suc n) b) r =
            (if ?K \<le>s SuccCount v + of_nat (Suc n) then Some zero_RPC
             else Some (v\<lparr>SuccCount := SuccCount v + of_nat (Suc n)\<rparr>))"
      using assms(1,3) before
      by (simp add: rpc_of_setSucc funpow_setSucc_facts ac_simps)
    then show ?thesis
      by (simp only: word_sle_eq eq) auto
  next
    case False
    then show ?thesis
      using Suc assms(1)
      by (simp add: rpc_of_setSucc funpow_setSucc_facts zero_RPC_def)
  qed
qed


subsection \<open>The invariant of the runs\<close>

lemma all_closed_Init: "all_closed (InitBreaker config)"
  by (simp add: all_closed_def InitBreaker_def)

lemma all_closed_setFail: "all_closed b \<Longrightarrow> all_closed (setFail r now b)"
  by (auto simp add: setFail_def store_defs Let_def all_closed_def update_conv' nth_append
      nth_list_update less_Suc_eq split: option.splits if_splits)

lemma setSucc_all_closed: "all_closed b \<Longrightarrow> setSucc r b = b"
  by (auto simp add: setSucc_def store_defs all_closed_def split: option.splits)

lemma body_all_closed: "all_closed b \<Longrightarrow> autoHalfOpen_body t r b = b"
  by (auto simp add: autoHalfOpen_body_def store_defs all_closed_def split: option.splits)

lemma range_all_closed: "all_closed b \<Longrightarrow> autoHalfOpen_range t rs b = b"
  by (induction rs) (simp_all add: body_all_closed)

lemma all_closed_step: "all_closed b \<Longrightarrow> all_closed (step t c b)"
  by (cases c)
    (simp_all add: all_closed_setFail setSucc_all_closed range_all_closed
      autoHalfOpen_tick_def getStatus_def split: option.splits)

lemma all_closed_run: "all_closed b \<Longrightarrow> all_closed (run t cs b)"
  by (induction cs arbitrary: b) (simp_all add: all_closed_step)

lemma all_closed_rpc_of:
  "all_closed b \<Longrightarrow> rpc_of b r = Some v \<Longrightarrow>
     Status v = CloseStatus \<and> OpenTime v = 0 \<and> SuccCount v = 0"
  by (auto simp add: all_closed_def rpc_of_def deref_def)

subsection \<open>Changes of status\<close>

text \<open>
  No call of \<open>setFail\<close> changes the status of a record. When \<open>setSucc\<close> or a tick
  changes the status of a record, the record is a new one with both counters 0.
\<close>

lemma rpc_of_SomeE:
  assumes "allocated b" and "rpc_of b r = Some v"
  obtains p where "map_of (R b) r = Some p" and "p < length (heap b)" and "v = heap b ! p"
  using assms by (auto simp add: rpc_of_def allocated_def deref_def)

lemma setFail_keeps_status:
  assumes "allocated b" and "rpc_of b r = Some v"
  shows "\<exists>v'. rpc_of (setFail r' now b) r = Some v' \<and> Status v' = Status v"
proof -
  from assms obtain p where p: "map_of (R b) r = Some p" "p < length (heap b)" "v = heap b ! p"
    by (rule rpc_of_SomeE)
  show ?thesis
  proof (cases "map_of (R b) r'")
    case None
    with p have "r' \<noteq> r" by auto
    with None p show ?thesis
      by (simp add: setFail_def rpc_of_def store_defs Let_def update_conv' nth_append)
  next
    case (Some q)
    with p show ?thesis
      by (cases "q = p")
        (simp_all add: setFail_def rpc_of_def store_defs Let_def nth_append nth_list_update)
  qed
qed

lemma setSucc_changes_status:
  assumes "allocated b" and "rpc_of b r = Some v" and "rpc_of (setSucc r' b) r = Some v'"
    and "Status v' \<noteq> Status v"
  shows "v' = zero_RPC"
proof -
  from assms(1,2) obtain p
    where p: "map_of (R b) r = Some p" "p < length (heap b)" "v = heap b ! p"
    by (rule rpc_of_SomeE)
  show ?thesis
  proof (cases "map_of (R b) r'")
    case None
    with p assms(3,4) show ?thesis
      by (simp add: setSucc_def rpc_of_def store_defs)
  next
    case (Some q)
    with p assms(3,4) show ?thesis
      by (cases "q = p"; cases "r' = r")
        (auto simp add: setSucc_def rpc_of_def store_defs Let_def nth_append nth_list_update
          update_conv' split: if_splits)
  qed
qed

lemma tick_changes_status:
  "allocated b \<Longrightarrow> rpc_of b r = Some v \<Longrightarrow> rpc_of (autoHalfOpen_tick t b) r = Some v' \<Longrightarrow>
     Status v' \<noteq> Status v \<Longrightarrow> v' = halfOpen_RPC"
  by (auto simp add: rpc_of_tick split: if_splits)

lemma status_change_resets:
  assumes "allocated b" and "rpc_of b r = Some v" and "rpc_of (step t c b) r = Some v'"
    and "Status v' \<noteq> Status v"
  shows "FailCount v' = 0 \<and> SuccCount v' = 0"
proof (cases c)
  case (SetFail r' now)
  with setFail_keeps_status [OF assms(1,2), of r' now] assms(3,4) show ?thesis by auto
next
  case (SetSucc r')
  with setSucc_changes_status [OF assms(1,2), of r' v'] assms(3,4) show ?thesis
    by (simp add: zero_RPC_def)
next
  case (GetStatus r')
  with assms(2,3,4) show ?thesis by (simp add: getStatus_def split: option.splits)
next
  case Tick
  with tick_changes_status [OF assms(1,2), of t v'] assms(3,4) show ?thesis
    by (simp add: halfOpen_RPC_def)
qed


subsection \<open>The counters before they wrap\<close>

text \<open>
  In a run from \<open>InitBreaker\<close> no failure count exceeds the number of calls made, so the
  counters are not negative in any state reached by fewer than \<open>2 ^ (w - 1)\<close> calls,
  \<open>w\<close> the width of \<open>int\<close>.
\<close>

lemma unat_incr: "unat (x + 1 :: 'w::len word) \<le> Suc (unat x)"
  by (simp add: unat_word_ariths)

lemma failures_at_most_Init: "failures_at_most 0 (InitBreaker config)"
  by (simp add: failures_at_most_def InitBreaker_def)

lemma failures_at_most_mono: "failures_at_most n b \<Longrightarrow> n \<le> m \<Longrightarrow> failures_at_most m b"
  by (fastforce simp add: failures_at_most_def)

lemma failures_at_most_setFail:
  assumes "failures_at_most n b"
  shows "failures_at_most (Suc n) (setFail r now b)"
proof -
  have le: "unat (FailCount (heap b ! p) + 1) \<le> Suc n" if "map_of (R b) r' = Some p" for r' p
    using assms that unat_incr [of "FailCount (heap b ! p)"]
    by (fastforce simp add: failures_at_most_def)
  show ?thesis
    using assms le
    by (auto simp add: setFail_def store_defs Let_def failures_at_most_def update_conv'
        nth_append nth_list_update less_Suc_eq le_Suc_eq split: option.splits if_splits)
qed

lemma failures_at_most_run:
  "all_closed b \<Longrightarrow> failures_at_most n b \<Longrightarrow> failures_at_most (n + length cs) (run t cs b)"
proof (induction cs arbitrary: b n)
  case Nil
  then show ?case by simp
next
  case (Cons c cs)
  have "failures_at_most (Suc n) (step t c b)"
  proof (cases c)
    case (SetFail r now)
    with Cons.prems(2) show ?thesis by (simp add: failures_at_most_setFail)
  next
    case (SetSucc r)
    with Cons.prems show ?thesis
      by (simp add: setSucc_all_closed failures_at_most_mono)
  next
    case (GetStatus r)
    with Cons.prems show ?thesis
      by (simp add: getStatus_def failures_at_most_mono split: option.splits)
  next
    case Tick
    with Cons.prems show ?thesis
      by (simp add: autoHalfOpen_tick_def range_all_closed failures_at_most_mono)
  qed
  from Cons.IH [OF all_closed_step [OF Cons.prems(1)] this]
  show ?case by simp
qed

lemma sint_nonneg_of_unat:
  fixes w :: "'w::len word"
  assumes "unat w < 2 ^ (LENGTH('w) - 1)"
  shows "0 \<le> sint w"
proof -
  have "int (unat w) < int (2 ^ (LENGTH('w) - 1))"
    using assms by (simp only: of_nat_less_iff)
  then have "uint w < 2 ^ (LENGTH('w) - 1)"
    by (simp only: uint_nat of_nat_power of_nat_numeral)
  moreover have "- (2 ^ (LENGTH('w) - 1)) \<le> uint w"
    by (rule order_trans [of _ 0]) simp_all
  ultimately have "signed_take_bit (LENGTH('w) - 1) (uint w) = uint w"
    by (simp add: signed_take_bit_int_eq_self)
  then show ?thesis
    by (simp add: sint_uint)
qed

lemma counters_nonneg_below_wrap:
  fixes config :: "('w::len) Config"
  assumes "length cs < 2 ^ (LENGTH('w) - 1)"
    and "rpc_of (run t cs (InitBreaker config)) r = Some v"
  shows "0 \<le> sint (FailCount v) \<and> 0 \<le> sint (SuccCount v)"
proof -
  have "failures_at_most (length cs) (run t cs (InitBreaker config))"
    using failures_at_most_run [OF all_closed_Init failures_at_most_Init, of cs t config]
    by simp
  with assms(2) have "unat (FailCount v) \<le> length cs"
    by (auto simp add: failures_at_most_def rpc_of_def deref_def)
  from this assms(1) have "unat (FailCount v) < 2 ^ (LENGTH('w) - 1)"
    by (rule le_less_trans)
  then have "0 \<le> sint (FailCount v)"
    by (rule sint_nonneg_of_unat)
  moreover have "SuccCount v = 0"
    using all_closed_rpc_of [OF all_closed_run [OF all_closed_Init] assms(2)] by simp
  ultimately show ?thesis by simp
qed

section \<open>The claims\<close>

subsection \<open>getStatus\<close>

text \<open>
  C7. For a resource with no record in the registry \<open>getStatus\<close> returns Closed; for a
  resource with a record it returns the status of that record.
\<close>

theorem getStatus_returns:
  "(rpc_of b r = None \<longrightarrow> fst (getStatus r b) = CloseStatus) \<and>
   (\<forall>v. rpc_of b r = Some v \<longrightarrow> fst (getStatus r b) = Status v)"
  by (auto simp add: getStatus_def rpc_of_def split: option.splits)

theorem getStatus_returns_witness:
  "rpc_of (one_record scenario_config
      \<lparr>Status = OpenStatus, FailCount = 0, SuccCount = 0, OpenTime = 100\<rparr>) ''svc-b'' = None \<and>
   fst (getStatus ''svc-b'' (one_record scenario_config
      \<lparr>Status = OpenStatus, FailCount = 0, SuccCount = 0, OpenTime = 100\<rparr>)) = CloseStatus \<and>
   fst (getStatus ''svc-a'' (one_record scenario_config
      \<lparr>Status = OpenStatus, FailCount = 0, SuccCount = 0, OpenTime = 100\<rparr>)) = OpenStatus"
  using
    getStatus_returns [of "one_record scenario_config
      \<lparr>Status = OpenStatus, FailCount = 0, SuccCount = 0, OpenTime = 100\<rparr>" "''svc-b''"]
    getStatus_returns [of "one_record scenario_config
      \<lparr>Status = OpenStatus, FailCount = 0, SuccCount = 0, OpenTime = 100\<rparr>" "''svc-a''"]
  by (simp add: rpc_of_one_record rpc_of_one_record_other)

text \<open>
  C10. \<open>getStatus\<close> is a pure read: the breaker it leaves behind is the breaker it was
  called on, registry and records alike, and the status it returns is a function of the
  breaker and the resource alone: two breakers that hold the same record for the
  resource (or both none) give the same answer.
\<close>

theorem getStatus_pure:
  "snd (getStatus r b) = b \<and>
   (\<forall>b'. rpc_of b' r = rpc_of b r \<longrightarrow> fst (getStatus r b') = fst (getStatus r b))"
  by (auto simp add: getStatus_def rpc_of_def split: option.splits)

theorem getStatus_pure_witness:
  "snd (getStatus ''svc-a'' (one_record scenario_config zero_RPC)) =
     one_record scenario_config zero_RPC \<and>
   fst (getStatus ''svc-a'' (one_record (scenario_config\<lparr>FailThreshold := 7\<rparr>) zero_RPC)) =
     fst (getStatus ''svc-a'' (one_record scenario_config zero_RPC))"
proof -
  have "rpc_of (one_record (scenario_config\<lparr>FailThreshold := 7\<rparr>) zero_RPC) ''svc-a'' =
        rpc_of (one_record scenario_config zero_RPC) ''svc-a''"
    by (simp add: rpc_of_one_record)
  with getStatus_pure [of "''svc-a''" "one_record scenario_config zero_RPC"]
  show ?thesis by blast
qed

subsection \<open>Calls that change nothing\<close>

text \<open>
  C8. \<open>setFail\<close> on a resource whose record is Open, and \<open>setSucc\<close> on a resource that
  has no record or whose record is Closed or Open, leave the whole breaker as it was:
  the registry, every record, the counters and the opening time.
\<close>

theorem noop_calls:
  "(\<forall>v. rpc_of b r = Some v \<and> Status v = OpenStatus \<longrightarrow> setFail r now b = b) \<and>
   (rpc_of b r = None \<or>
    (\<exists>v. rpc_of b r = Some v \<and> (Status v = CloseStatus \<or> Status v = OpenStatus)) \<longrightarrow>
    setSucc r b = b)"
  by (auto simp add: setFail_def setSucc_def rpc_of_def isHalfOpen_def isClose_def
      split: option.splits)

theorem noop_calls_witness:
  "setFail ''svc-a'' 200 (one_record scenario_config
      \<lparr>Status = OpenStatus, FailCount = 0, SuccCount = 0, OpenTime = 100\<rparr>) =
     one_record scenario_config
      \<lparr>Status = OpenStatus, FailCount = 0, SuccCount = 0, OpenTime = 100\<rparr> \<and>
   setSucc ''svc-a'' (one_record scenario_config
      \<lparr>Status = OpenStatus, FailCount = 0, SuccCount = 0, OpenTime = 100\<rparr>) =
     one_record scenario_config
      \<lparr>Status = OpenStatus, FailCount = 0, SuccCount = 0, OpenTime = 100\<rparr> \<and>
   setSucc ''svc-b'' (one_record scenario_config
      \<lparr>Status = OpenStatus, FailCount = 0, SuccCount = 0, OpenTime = 100\<rparr>) =
     one_record scenario_config
      \<lparr>Status = OpenStatus, FailCount = 0, SuccCount = 0, OpenTime = 100\<rparr>"
  using
    noop_calls [of "one_record scenario_config
      \<lparr>Status = OpenStatus, FailCount = 0, SuccCount = 0, OpenTime = 100\<rparr>" "''svc-a''" 200]
    noop_calls [of "one_record scenario_config
      \<lparr>Status = OpenStatus, FailCount = 0, SuccCount = 0, OpenTime = 100\<rparr>" "''svc-b''" 200]
  by (simp add: rpc_of_one_record rpc_of_one_record_other)

subsection \<open>Failures never open the breaker\<close>

text \<open>
  C1 says that with \<open>failThreshold = N > 1\<close> a fresh resource is still Closed after
  \<open>N - 1\<close> failures and Open after the \<open>N\<close>th, with \<open>openedAt\<close> the time of that call
  and both counters 0. The code does the first half only. What it does: after any
  number \<open>n \<ge> 1\<close> of consecutive failures on a fresh resource the record is Closed,
  its \<open>FailCount\<close> is \<open>n\<close> and its \<open>OpenTime\<close> is 0, because \<open>setOpenStatus\<close> leaves the
  registry's record alone. \<open>ts\<close> are the clock readings of the calls.
\<close>

theorem fresh_failures_stay_closed:
  "allocated b \<Longrightarrow> rpc_of b r = None \<Longrightarrow> 1 <s FailThreshold (Config b) \<Longrightarrow> ts \<noteq> [] \<Longrightarrow>
     rpc_of (fold (setFail r) ts b) r =
       Some \<lparr>Status = CloseStatus, FailCount = of_nat (length ts), SuccCount = 0, OpenTime = 0\<rparr>"
  using fold_setFail_fresh [of b r ts] by (auto simp add: zero_RPC_def)

theorem fresh_failures_stay_closed_witness:
  "rpc_of (fold (setFail ''svc-a'') [10, 20] (InitBreaker scenario_config)) ''svc-a'' =
     Some \<lparr>Status = CloseStatus, FailCount = 2, SuccCount = 0, OpenTime = 0\<rparr> \<and>
   rpc_of (fold (setFail ''svc-a'') [10, 20, 30] (InitBreaker scenario_config)) ''svc-a'' =
     Some \<lparr>Status = CloseStatus, FailCount = 3, SuccCount = 0, OpenTime = 0\<rparr>"
  using
    fresh_failures_stay_closed [of "InitBreaker scenario_config" "''svc-a''" "[10, 20]"]
    fresh_failures_stay_closed [of "InitBreaker scenario_config" "''svc-a''" "[10, 20, 30]"]
  by (simp add: allocated_Init rpc_of_Init Config_Init scenario_config_def word_sless_alt)

text \<open>
  C4 says that with \<open>failThreshold = 1\<close> one failure on a fresh resource makes it Open
  with \<open>openedAt\<close> the time of the call. What the code does: the record it has just
  created stays as created, Closed with \<open>OpenTime\<close> 0; even the count of the failure
  is lost.
\<close>

theorem threshold_one_stays_closed:
  "allocated b \<Longrightarrow> rpc_of b r = None \<Longrightarrow> FailThreshold (Config b) = 1 \<Longrightarrow>
     rpc_of (setFail r now b) r =
       Some \<lparr>Status = CloseStatus, FailCount = 0, SuccCount = 0, OpenTime = 0\<rparr>"
  by (simp add: rpc_of_setFail zero_RPC_def)

theorem threshold_one_stays_closed_witness:
  "rpc_of (setFail ''svc-a'' 10
      (InitBreaker (scenario_config\<lparr>FailThreshold := 1\<rparr>))) ''svc-a'' =
     Some \<lparr>Status = CloseStatus, FailCount = 0, SuccCount = 0, OpenTime = 0\<rparr>"
  using threshold_one_stays_closed
    [of "InitBreaker (scenario_config\<lparr>FailThreshold := 1\<rparr>)" "''svc-a''" 10]
  by (simp add: allocated_Init rpc_of_Init Config_Init)

text \<open>
  C3 says that one failure moves a Half-Open record to Open. What the code does: it
  allocates an Open object that nothing points to, and the record stays Half-Open with
  its counters as they were.
\<close>

theorem halfOpen_failure_stays_halfOpen:
  "allocated b \<Longrightarrow> rpc_of b r = Some v \<Longrightarrow> Status v = HalfOpenStatus \<Longrightarrow>
     setFail r now b =
       b\<lparr>heap := heap b @
          [\<lparr>Status = OpenStatus, FailCount = 0, SuccCount = 0, OpenTime = now\<rparr>]\<rparr> \<and>
     rpc_of (setFail r now b) r = Some v"
  by (auto simp add: rpc_of_setFail) (auto simp add: setFail_def rpc_of_def store_defs)

theorem halfOpen_failure_stays_halfOpen_witness:
  "rpc_of (setFail ''svc-a'' 50 (one_record scenario_config
      \<lparr>Status = HalfOpenStatus, FailCount = 0, SuccCount = 1, OpenTime = 0\<rparr>)) ''svc-a'' =
     Some \<lparr>Status = HalfOpenStatus, FailCount = 0, SuccCount = 1, OpenTime = 0\<rparr>"
proof -
  have "Status \<lparr>Status = HalfOpenStatus, FailCount = 0, SuccCount = 1, OpenTime = 0\<rparr> =
          HalfOpenStatus"
    by simp
  from halfOpen_failure_stays_halfOpen [OF allocated_one_record rpc_of_one_record this]
  show ?thesis by (rule conjunct2)
qed

text \<open>
  C6. From the empty registry of \<open>InitBreaker\<close>, after any finite sequence of
  \<open>setFail\<close>, \<open>setSucc\<close>, \<open>getStatus\<close> and ticks, every record of the registry is
  Closed with \<open>OpenTime\<close> 0 and \<open>SuccCount\<close> 0.
\<close>

theorem never_opens:
  "rpc_of (run nowTime cs (InitBreaker config)) r = Some v \<Longrightarrow>
     Status v = CloseStatus \<and> OpenTime v = 0 \<and> SuccCount v = 0"
  using all_closed_rpc_of [OF all_closed_run [OF all_closed_Init]] .

theorem never_opens_witness:
  "rpc_of (run 5
      [SetFail ''svc-a'' 10, SetFail ''svc-a'' 20, SetFail ''svc-a'' 30, Tick,
       SetSucc ''svc-a'', GetStatus ''svc-a'', SetFail ''svc-a'' 40]
      (InitBreaker scenario_config)) ''svc-a'' =
     Some \<lparr>Status = CloseStatus, FailCount = 4, SuccCount = 0, OpenTime = 0\<rparr> \<and>
   Status \<lparr>Status = CloseStatus, FailCount = 4, SuccCount = 0, OpenTime = 0\<rparr> = CloseStatus"
proof -
  have ran: "rpc_of (run 5
      [SetFail ''svc-a'' 10, SetFail ''svc-a'' 20, SetFail ''svc-a'' 30, Tick,
       SetSucc ''svc-a'', GetStatus ''svc-a'', SetFail ''svc-a'' 40]
      (InitBreaker scenario_config)) ''svc-a'' =
     Some \<lparr>Status = CloseStatus, FailCount = 4, SuccCount = 0, OpenTime = 0\<rparr>"
    by code_simp
  from never_opens [OF ran] ran show ?thesis by simp
qed

text \<open>
  C9 says that the counters are never negative in a reachable state and that both are 0
  after every change of status. The second half holds (\<open>status_change_resets\<close>). The
  first does not: \<open>FailCount\<close> is a Go \<open>int\<close> that \<open>setFail\<close> increments on every failure
  of a Closed record, and the record never leaves Closed (C6), so nothing bounds it.
  After \<open>2^31\<close> failures on one resource on a 32-bit platform, \<open>2^63\<close> on a 64-bit one,
  it has wrapped around to the least \<open>int\<close>. Below that many calls the counters are not
  negative (\<open>counters_nonneg_below_wrap\<close>).
\<close>

theorem failCount_wraps_negative:
  "map_option (\<lambda>v. sint (FailCount v))
      (rpc_of ((setFail ''svc-a'' 0 ^^ 2147483648)
         (InitBreaker (\<lparr>FailThreshold = 3, SuccThreshold = 2, OpenTimeout = 10\<rparr> :: 32 Config)))
         ''svc-a'') =
     Some (- 2147483648) \<and>
   map_option (\<lambda>v. sint (FailCount v))
      (rpc_of ((setFail ''svc-a'' 0 ^^ 9223372036854775808)
         (InitBreaker (\<lparr>FailThreshold = 3, SuccThreshold = 2, OpenTimeout = 10\<rparr> :: 64 Config)))
         ''svc-a'') =
     Some (- 9223372036854775808)"
proof -
  let ?c32 = "\<lparr>FailThreshold = 3, SuccThreshold = 2, OpenTimeout = 10\<rparr> :: 32 Config"
  let ?c64 = "\<lparr>FailThreshold = 3, SuccThreshold = 2, OpenTimeout = 10\<rparr> :: 64 Config"
  have "rpc_of ((setFail ''svc-a'' 0 ^^ Suc 2147483647) (InitBreaker ?c32)) ''svc-a'' =
          Some (zero_RPC\<lparr>FailCount := of_nat (Suc 2147483647)\<rparr>)"
    by (rule funpow_setFail_fresh) (simp_all add: allocated_Init rpc_of_Init Config_Init)
  moreover have "Suc 2147483647 = 2147483648"
    by simp
  ultimately have small:
    "rpc_of ((setFail ''svc-a'' 0 ^^ 2147483648) (InitBreaker ?c32)) ''svc-a'' =
       Some (zero_RPC\<lparr>FailCount := of_nat 2147483648\<rparr>)"
    by (simp only:)
  have "rpc_of ((setFail ''svc-a'' 0 ^^ Suc 9223372036854775807) (InitBreaker ?c64)) ''svc-a'' =
          Some (zero_RPC\<lparr>FailCount := of_nat (Suc 9223372036854775807)\<rparr>)"
    by (rule funpow_setFail_fresh) (simp_all add: allocated_Init rpc_of_Init Config_Init)
  moreover have "Suc 9223372036854775807 = 9223372036854775808"
    by simp
  ultimately have large:
    "rpc_of ((setFail ''svc-a'' 0 ^^ 9223372036854775808) (InitBreaker ?c64)) ''svc-a'' =
       Some (zero_RPC\<lparr>FailCount := of_nat 9223372036854775808\<rparr>)"
    by (simp only:)
  have "map_option (\<lambda>v. sint (FailCount v))
          (rpc_of ((setFail ''svc-a'' 0 ^^ 2147483648) (InitBreaker ?c32)) ''svc-a'') =
        Some (- 2147483648)"
    by (simp only: small option.map RPC.select_convs RPC.update_convs zero_RPC_def) simp
  moreover have "map_option (\<lambda>v. sint (FailCount v))
          (rpc_of ((setFail ''svc-a'' 0 ^^ 9223372036854775808) (InitBreaker ?c64)) ''svc-a'') =
        Some (- 9223372036854775808)"
    by (simp only: large option.map RPC.select_convs RPC.update_convs zero_RPC_def) simp
  ultimately show ?thesis by (rule conjI)
qed

subsection \<open>The ticker\<close>

text \<open>
  C2 says that a tick replaces exactly the Open records whose time since \<open>OpenTime\<close>
  exceeds \<open>OpenTimeout\<close> by fresh Half-Open records and leaves every other record
  unchanged. What the code does: a tick replaces exactly the Open records with
  \<open>OpenTime + OpenTimeout > nowTime\<close>, \<open>nowTime\<close> being the clock reading taken once when
  the goroutine started; the time of the tick plays no part. So an Open record opened at
  100 with a timeout of 10 is made Half-Open by the first tick of a goroutine started at
  95, however soon after 100 that tick comes, and is left Open for ever by a goroutine
  started at 200.
\<close>

theorem tick_demotes_by_start_time:
  "allocated b \<Longrightarrow>
     rpc_of (autoHalfOpen_tick nowTime b) r =
       (case rpc_of b r of
          None \<Rightarrow> None
        | Some v \<Rightarrow>
            if Status v = OpenStatus \<and> nowTime <s OpenTime v + OpenTimeout (Config b)
            then Some \<lparr>Status = HalfOpenStatus, FailCount = 0, SuccCount = 0, OpenTime = 0\<rparr>
            else Some v)"
  by (simp add: rpc_of_tick halfOpen_RPC_def split: option.splits)

theorem tick_demotes_by_start_time_witness:
  "rpc_of (autoHalfOpen_tick 95 (one_record scenario_config
      \<lparr>Status = OpenStatus, FailCount = 0, SuccCount = 0, OpenTime = 100\<rparr>)) ''svc-a'' =
     Some \<lparr>Status = HalfOpenStatus, FailCount = 0, SuccCount = 0, OpenTime = 0\<rparr> \<and>
   rpc_of (autoHalfOpen_tick 200 (one_record scenario_config
      \<lparr>Status = OpenStatus, FailCount = 0, SuccCount = 0, OpenTime = 100\<rparr>)) ''svc-a'' =
     Some \<lparr>Status = OpenStatus, FailCount = 0, SuccCount = 0, OpenTime = 100\<rparr>"
  using
    tick_demotes_by_start_time [OF allocated_one_record, of 95 scenario_config
      "\<lparr>Status = OpenStatus, FailCount = 0, SuccCount = 0, OpenTime = 100\<rparr>" "''svc-a''"]
    tick_demotes_by_start_time [OF allocated_one_record, of 200 scenario_config
      "\<lparr>Status = OpenStatus, FailCount = 0, SuccCount = 0, OpenTime = 100\<rparr>" "''svc-a''"]
  by (simp add: rpc_of_one_record Config_one_record scenario_config_def word_sless_alt)

subsection \<open>Successes while Half-Open\<close>

text \<open>
  C5. A record becomes Half-Open with \<open>SuccCount\<close> 0, and \<open>setSucc\<close> counts in
  \<open>SuccCount\<close> the consecutive successes since. For such a record and
  \<open>succThreshold = K \<ge> 1\<close>: after \<open>n\<close> consecutive calls of \<open>setSucc\<close> with \<open>n < K\<close> the
  record is still Half-Open, having counted \<open>n\<close>; after \<open>K\<close> calls (and after more) it is
  Closed with both counters 0.
\<close>

theorem halfOpen_successes_close:
  "allocated b \<Longrightarrow> rpc_of b r = Some v \<Longrightarrow> Status v = HalfOpenStatus \<Longrightarrow>
   SuccCount v = 0 \<Longrightarrow> 0 <s SuccThreshold (Config b) \<Longrightarrow>
     rpc_of ((setSucc r ^^ n) b) r =
       Some (if int n < sint (SuccThreshold (Config b))
             then \<lparr>Status = HalfOpenStatus, FailCount = FailCount v,
                    SuccCount = of_nat n, OpenTime = OpenTime v\<rparr>
             else \<lparr>Status = CloseStatus, FailCount = 0, SuccCount = 0, OpenTime = 0\<rparr>)"
proof -
  assume a: "allocated b" "rpc_of b r = Some v" "Status v = HalfOpenStatus"
    and zero: "SuccCount v = 0" and K: "0 <s SuccThreshold (Config b)"
  from zero K have below: "SuccCount v <s SuccThreshold (Config b)"
    by simp
  have "v\<lparr>SuccCount := of_nat n\<rparr> =
          \<lparr>Status = HalfOpenStatus, FailCount = FailCount v,
             SuccCount = of_nat n, OpenTime = OpenTime v\<rparr>"
    using a(3) by (cases v) simp
  with funpow_setSucc [OF a below, of n] zero show ?thesis
    by (simp add: zero_RPC_def)
qed

theorem halfOpen_successes_close_witness:
  "rpc_of ((setSucc ''svc-a'' ^^ 1) (one_record scenario_config
      \<lparr>Status = HalfOpenStatus, FailCount = 0, SuccCount = 0, OpenTime = 0\<rparr>)) ''svc-a'' =
     Some \<lparr>Status = HalfOpenStatus, FailCount = 0, SuccCount = 1, OpenTime = 0\<rparr> \<and>
   rpc_of ((setSucc ''svc-a'' ^^ 2) (one_record scenario_config
      \<lparr>Status = HalfOpenStatus, FailCount = 0, SuccCount = 0, OpenTime = 0\<rparr>)) ''svc-a'' =
     Some \<lparr>Status = CloseStatus, FailCount = 0, SuccCount = 0, OpenTime = 0\<rparr>"
  using
    halfOpen_successes_close [OF allocated_one_record rpc_of_one_record, of
      "\<lparr>Status = HalfOpenStatus, FailCount = 0, SuccCount = 0, OpenTime = 0\<rparr>"
      scenario_config 1]
    halfOpen_successes_close [OF allocated_one_record rpc_of_one_record, of
      "\<lparr>Status = HalfOpenStatus, FailCount = 0, SuccCount = 0, OpenTime = 0\<rparr>"
      scenario_config 2]
  by (simp add: Config_one_record scenario_config_def word_sless_alt)

end
